theory Spec2Isabelle
  imports Main "HOL-Library.Word"
begin

section \<open>Errors\<close>

text \<open>
  The failures the library can raise, as values.  JavaScript raises all of them as
  exceptions (or rejected promises); the model returns them on the left of a sum.
  \<^item> \<open>DivisionByZero\<close>: the field inverse of zero.
  \<^item> \<open>InvalidConfiguration\<close>: \<^verbatim>\<open>Error("The tree depth must be between 16 and 32")\<close>
    of the \<^verbatim>\<open>Registry\<close> constructor.
  \<^item> \<open>NotInitialized\<close>: the \<^verbatim>\<open>TypeError\<close> of the runtime when a property of the
    undefined \<^verbatim>\<open>_merkleTree\<close> is read, or the undefined \<^verbatim>\<open>_poseidon\<close> is called.
  \<^item> \<open>OutOfRange\<close>, \<open>CapacityExceeded\<close>: raised by the Merkle tree.
  \<^item> \<open>BackendFailure\<close>: whatever the proof backend raises.
\<close>

datatype error =
    DivisionByZero
  | InvalidConfiguration
  | NotInitialized
  | OutOfRange
  | CapacityExceeded
  | BackendFailure

section \<open>Field arithmetic (\<^verbatim>\<open>Fq\<close> of \<^verbatim>\<open>./utils\<close>)\<close>

text \<open>
  \<^verbatim>\<open>rln.ts\<close> imports \<^verbatim>\<open>Fq\<close> from \<^verbatim>\<open>./utils\<close>, which is not among the source files.
  The modulus \<open>p\<close> (the scalar field prime) is a parameter of every operation; a
  \<^verbatim>\<open>bigint\<close> is an \<open>int\<close>.
\<close>

text \<open>Modelled from the spec: \<^verbatim>\<open>Fq.normalize\<close> of the missing \<^verbatim>\<open>./utils\<close>: "maps any integer
  (including negative) to its canonical representative in [0, p)".\<close>

definition Fq_normalize :: "int \<Rightarrow> int \<Rightarrow> int" where
  "Fq_normalize p a = a mod p"

text \<open>Modelled from the spec: \<^verbatim>\<open>Fq.sub\<close> and \<^verbatim>\<open>Fq.mul\<close> of the missing \<^verbatim>\<open>./utils\<close>: "standard
  modular operations, result always re-normalized into [0, p)".\<close>

definition Fq_sub :: "int \<Rightarrow> int \<Rightarrow> int \<Rightarrow> int" where
  "Fq_sub p a b = Fq_normalize p (a - b)"

definition Fq_mul :: "int \<Rightarrow> int \<Rightarrow> int \<Rightarrow> int" where
  "Fq_mul p a b = Fq_normalize p (a * b)"

text \<open>The extended Euclidean algorithm: \<open>egcd a b = (s, t)\<close> with \<open>a * s + b * t = gcd a b\<close>.\<close>

fun egcd :: "nat \<Rightarrow> nat \<Rightarrow> int \<times> int" where
  "egcd a b =
     (if b = 0 then (1, 0)
      else (case egcd b (a mod b) of (s, t) \<Rightarrow> (t, s - int (a div b) * t)))"

declare egcd.simps [simp del]

text \<open>Modelled from the spec: \<^verbatim>\<open>Fq.div\<close> of the missing \<^verbatim>\<open>./utils\<close>: "computes a * b^-1 mod p;
  fails with a DivisionByZero error when b = 0 mod p (b's multiplicative inverse does
  not exist)".  The inverse is computed by the extended Euclidean algorithm.\<close>

definition Fq_inv :: "int \<Rightarrow> int \<Rightarrow> error + int" where
  "Fq_inv p b =
     (if b mod p = 0 then Inl DivisionByZero
      else Inr (Fq_normalize p (fst (egcd (nat (b mod p)) (nat p)))))"

definition Fq_div :: "int \<Rightarrow> int \<Rightarrow> int \<Rightarrow> error + int" where
  "Fq_div p a b =
     (case Fq_inv p b of
        Inl e \<Rightarrow> Inl e
      | Inr i \<Rightarrow> Inr (Fq_mul p a i))"

text \<open>The modulus is meant to be a prime: no proper divisor between 2 and \<open>p - 1\<close>.\<close>

definition is_prime :: "int \<Rightarrow> bool" where
  "is_prime p \<longleftrightarrow> 1 < p \<and> (\<forall>d \<in> set [2..p - 1]. \<not> d dvd p)"

section \<open>Protocol core (\<^verbatim>\<open>src/rln.ts\<close>)\<close>

subsection \<open>The lazily initialised hash primitive\<close>

text \<open>
  The class keeps one static field, \<^verbatim>\<open>_poseidon\<close>: undefined (\<open>None\<close>) until a build of
  the hash primitive has resolved.  The primitive itself is external: a function from
  a sequence of field elements to a field element.  \<open>pending_builds\<close> counts the builds that
  \<^verbatim>\<open>poseidon\<close> has started and that have not resolved yet.
\<close>

type_synonym hash = "int list \<Rightarrow> int"

record RLN_static =
  poseidon_slot :: "hash option"
  pending_builds :: nat

definition RLN_initial :: RLN_static where
  "RLN_initial = \<lparr>poseidon_slot = None, pending_builds = 0\<rparr>"

text \<open>
  \<^verbatim>\<open>poseidon(input)\<close>: when \<^verbatim>\<open>_poseidon\<close> is unset a build is started, and not awaited;
  the statement after the \<^verbatim>\<open>if\<close> then calls \<^verbatim>\<open>this._poseidon\<close>, which is still undefined.
\<close>

definition poseidon :: "int list \<Rightarrow> RLN_static \<Rightarrow> (error + int) \<times> RLN_static" where
  "poseidon input s =
     (case poseidon_slot s of
        None \<Rightarrow> (Inl NotInitialized, s\<lparr>pending_builds := pending_builds s + 1\<rparr>)
      | Some h \<Rightarrow> (Inr (h input), s))"

text \<open>The continuation of a started build, run when \<^verbatim>\<open>buildPoseidon()\<close> resolves with \<open>h\<close>:
  \<^verbatim>\<open>this._poseidon = p\<close> (the hash it then computes is dropped).\<close>

definition buildPoseidon_resolved :: "hash \<Rightarrow> RLN_static \<Rightarrow> RLN_static" where
  "buildPoseidon_resolved h s =
     (if pending_builds s = 0 then s
      else s\<lparr>poseidon_slot := Some h, pending_builds := pending_builds s - 1\<rparr>)"

subsection \<open>Output, nullifier and secret recovery\<close>

definition genNullifier :: "int \<Rightarrow> int \<Rightarrow> RLN_static \<Rightarrow> (error + int) \<times> RLN_static" where
  "genNullifier a1 rlnIdentifier s = poseidon [a1, rlnIdentifier] s"

definition calculateOutput ::
  "int \<Rightarrow> int \<Rightarrow> int \<Rightarrow> int \<Rightarrow> int \<Rightarrow> RLN_static \<Rightarrow> (error + int list) \<times> RLN_static" where
  "calculateOutput p identitySecret epoch rlnIdentifier x s =
     (case poseidon [identitySecret, epoch] s of
        (Inl e, s1) \<Rightarrow> (Inl e, s1)
      | (Inr a1, s1) \<Rightarrow>
          (let y = Fq_normalize p (a1 * x + identitySecret) in
           case genNullifier a1 rlnIdentifier s1 of
             (Inl e, s2) \<Rightarrow> (Inl e, s2)
           | (Inr nullifier, s2) \<Rightarrow> (Inr [y, nullifier], s2)))"

definition retrieveSecret :: "int \<Rightarrow> int \<Rightarrow> int \<Rightarrow> int \<Rightarrow> int \<Rightarrow> error + int" where
  "retrieveSecret p x1 x2 y1 y2 =
     (case Fq_div p (Fq_sub p y2 y1) (Fq_sub p x2 x1) of
        Inl e \<Rightarrow> Inl e
      | Inr slope \<Rightarrow>
          (let privateKey = Fq_sub p y1 (Fq_mul p slope x1) in
           Inr (Fq_normalize p privateKey)))"

subsection \<open>Signal hash\<close>

text \<open>
  \<^verbatim>\<open>toUtf8Bytes\<close> and \<^verbatim>\<open>keccak256\<close> are external (\<^verbatim>\<open>@ethersproject\<close>): parameters.
  \<^verbatim>\<open>hexlify\<close> writes the bytes as a hex string and \<^verbatim>\<open>keccak256(['bytes'], [converted])\<close>
  reads the same bytes back before hashing them, so the digest is that of the bytes.
  The digest comes back as a hex string, which \<^verbatim>\<open>BigInt\<close> reads most significant byte
  first.
\<close>

type_synonym byte = "8 word"

definition BigInt_of_bytes :: "byte list \<Rightarrow> int" where
  "BigInt_of_bytes bs = foldl (\<lambda>acc b. acc * 256 + uint b) 0 bs"

definition genSignalHash :: "(string \<Rightarrow> byte list) \<Rightarrow> (byte list \<Rightarrow> byte list) \<Rightarrow> string \<Rightarrow> int" where
  "genSignalHash toUtf8Bytes keccak256 signal =
     (let converted = toUtf8Bytes signal
      in drop_bit 8 (BigInt_of_bytes (keccak256 converted)))"

subsection \<open>Witness\<close>

text \<open>\<^verbatim>\<open>StrBigInt\<close> of the missing \<^verbatim>\<open>./types\<close>: a string or a \<^verbatim>\<open>bigint\<close>.\<close>

datatype StrBigInt = Str string | Big int

text \<open>\<^verbatim>\<open>MerkleProof\<close> of \<^verbatim>\<open>@zk-kit/incremental-merkle-tree\<close>; only \<^verbatim>\<open>siblings\<close> and
  \<^verbatim>\<open>pathIndices\<close> are read here.\<close>

record MerkleProof =
  proof_root :: int
  proof_leaf :: int
  siblings :: "int list"
  pathIndices :: "int list"

text \<open>The object \<^verbatim>\<open>genWitness\<close> returns; its keys \<^verbatim>\<open>x\<close> and \<^verbatim>\<open>epoch\<close> are the fields
  \<open>witness_x\<close> and \<open>witness_epoch\<close>.\<close>

record witness =
  identity_secret :: int
  path_elements :: "int list"
  identity_path_index :: "int list"
  witness_x :: StrBigInt
  witness_epoch :: StrBigInt
  rln_identifier :: int

text \<open>The last parameter is optional (\<^verbatim>\<open>shouldHash = true\<close>): \<open>None\<close> is the omitted
  argument.\<close>

definition genWitness ::
  "(string \<Rightarrow> byte list) \<Rightarrow> (byte list \<Rightarrow> byte list) \<Rightarrow>
   int \<Rightarrow> MerkleProof \<Rightarrow> StrBigInt \<Rightarrow> string \<Rightarrow> int \<Rightarrow> bool option \<Rightarrow> witness" where
  "genWitness toUtf8Bytes keccak256 identitySecret merkleProof epoch signal rlnIdentifier shouldHash =
     (let shouldHash = (case shouldHash of None \<Rightarrow> True | Some b \<Rightarrow> b) in
      \<lparr>identity_secret = identitySecret,
       path_elements = siblings merkleProof,
       identity_path_index = pathIndices merkleProof,
       witness_x = (if shouldHash then Big (genSignalHash toUtf8Bytes keccak256 signal)
                    else Str signal),
       witness_epoch = epoch,
       rln_identifier = rlnIdentifier\<rparr>)"

subsection \<open>Proof generation and verification\<close>

text \<open>
  The backend (\<^verbatim>\<open>groth16\<close> of \<^verbatim>\<open>snarkjs\<close>) is external: \<open>fullProve\<close> and \<open>verify\<close> are
  parameters, and either may fail.  Reading a JavaScript array beyond its length gives
  \<^verbatim>\<open>undefined\<close>: \<open>None\<close>.  The keys \<^verbatim>\<open>epoch\<close> and \<^verbatim>\<open>rlnIdentifier\<close> of the public signals
  are the fields \<open>publicEpoch\<close> and \<open>publicRlnIdentifier\<close>.
\<close>

definition js_index :: "'a list \<Rightarrow> nat \<Rightarrow> 'a option" where
  "js_index xs i = (if i < length xs then Some (xs ! i) else None)"

record PublicSignals =
  yShare :: "StrBigInt option"
  merkleRoot :: "StrBigInt option"
  internalNullifier :: "StrBigInt option"
  signalHash :: "StrBigInt option"
  publicEpoch :: "StrBigInt option"
  publicRlnIdentifier :: "StrBigInt option"

record 'p RLNFullProof =
  fullProof_proof :: 'p
  publicSignals :: PublicSignals

definition genProof ::
  "('w \<Rightarrow> string \<Rightarrow> string \<Rightarrow> error + 'p \<times> StrBigInt list) \<Rightarrow>
   'w \<Rightarrow> string \<Rightarrow> string \<Rightarrow> error + 'p RLNFullProof" where
  "genProof fullProve wit wasmFilePath finalZkeyPath =
     (case fullProve wit wasmFilePath finalZkeyPath of
        Inl e \<Rightarrow> Inl e
      | Inr (prf, signals) \<Rightarrow>
          Inr \<lparr>fullProof_proof = prf,
               publicSignals =
                 \<lparr>yShare = js_index signals 0,
                  merkleRoot = js_index signals 1,
                  internalNullifier = js_index signals 2,
                  signalHash = js_index signals 3,
                  publicEpoch = js_index signals 4,
                  publicRlnIdentifier = js_index signals 5\<rparr>\<rparr>)"

definition verifyProof ::
  "('k \<Rightarrow> StrBigInt option list \<Rightarrow> 'p \<Rightarrow> error + bool) \<Rightarrow>
   'k \<Rightarrow> 'p RLNFullProof \<Rightarrow> error + bool" where
  "verifyProof verify verificationKey fullProof =
     verify verificationKey
       [yShare (publicSignals fullProof),
        merkleRoot (publicSignals fullProof),
        internalNullifier (publicSignals fullProof),
        signalHash (publicSignals fullProof),
        publicEpoch (publicSignals fullProof),
        publicRlnIdentifier (publicSignals fullProof)]
       (fullProof_proof fullProof)"

section \<open>The incremental Merkle tree (\<^verbatim>\<open>@zk-kit/incremental-merkle-tree\<close>)\<close>

text \<open>Modelled from the spec: the state of the missing \<^verbatim>\<open>IncrementalMerkleTree\<close>, which the
  registry wraps: "an ordered, fixed-capacity (2^depth) sequence of leaf slots, each
  either a live Member or a sentinel zero value".  The tree keeps the hash, the depth,
  the zero value and the arity it was built with, and the occupied leaf slots in index
  order; \<open>tree_slot\<close> reads any slot, and one past the occupied slots holds the zero
  value.\<close>

record IncrementalMerkleTree =
  tree_hash :: hash
  tree_depth :: int
  tree_zero :: int
  tree_arity :: nat
  tree_leaves :: "int list"

text \<open>Modelled from the spec: the constructor of the missing \<^verbatim>\<open>IncrementalMerkleTree\<close>:
  "Builds an empty tree of capacity 2^depth, every leaf initialized to zeroValue".\<close>

definition tree_new :: "hash \<Rightarrow> int \<Rightarrow> int \<Rightarrow> nat \<Rightarrow> IncrementalMerkleTree" where
  "tree_new h depth zero arity =
     \<lparr>tree_hash = h, tree_depth = depth, tree_zero = zero, tree_arity = arity, tree_leaves = []\<rparr>"

definition tree_capacity :: "IncrementalMerkleTree \<Rightarrow> nat" where
  "tree_capacity t = tree_arity t ^ nat (tree_depth t)"

definition tree_slot :: "IncrementalMerkleTree \<Rightarrow> nat \<Rightarrow> int" where
  "tree_slot t i = (if i < length (tree_leaves t) then tree_leaves t ! i else tree_zero t)"

text \<open>Modelled from the spec: \<^verbatim>\<open>insert\<close> of the missing \<^verbatim>\<open>IncrementalMerkleTree\<close>: "appends at
  the next unused index; fails with a CapacityExceeded error when the tree is full (no
  unused indices remain)".\<close>

definition tree_insert :: "int \<Rightarrow> IncrementalMerkleTree \<Rightarrow> error + IncrementalMerkleTree" where
  "tree_insert leaf t =
     (if tree_capacity t \<le> length (tree_leaves t) then Inl CapacityExceeded
      else Inr (t\<lparr>tree_leaves := tree_leaves t @ [leaf]\<rparr>))"

text \<open>Modelled from the spec: \<^verbatim>\<open>delete\<close> of the missing \<^verbatim>\<open>IncrementalMerkleTree\<close>: "fails with
  an OutOfRange error when index is outside the tree's occupied range; otherwise resets
  that slot to the zero value"; "deletion does not shrink the sequence".\<close>

definition tree_delete :: "int \<Rightarrow> IncrementalMerkleTree \<Rightarrow> error + IncrementalMerkleTree" where
  "tree_delete index t =
     (if index < 0 \<or> int (length (tree_leaves t)) \<le> index then Inl OutOfRange
      else Inr (t\<lparr>tree_leaves := (tree_leaves t)[nat index := tree_zero t]\<rparr>))"

text \<open>Modelled from the spec: \<^verbatim>\<open>indexOf\<close> of the missing \<^verbatim>\<open>IncrementalMerkleTree\<close>: "linear
  search for the first slot equal to member; returns a not-found sentinel when absent"
  (the sentinel is -1).\<close>

fun first_index :: "int \<Rightarrow> int list \<Rightarrow> int \<Rightarrow> int" where
  "first_index leaf [] i = - 1"
| "first_index leaf (l # ls) i = (if l = leaf then i else first_index leaf ls (i + 1))"

definition tree_indexOf :: "int \<Rightarrow> IncrementalMerkleTree \<Rightarrow> int" where
  "tree_indexOf leaf t = first_index leaf (tree_leaves t) 0"

text \<open>Modelled from the spec: \<^verbatim>\<open>root\<close> of the missing \<^verbatim>\<open>IncrementalMerkleTree\<close>: "the root is a
  pure function of the current leaf sequence".  Each level hashes the nodes below it in
  groups of \<open>arity\<close>, a short last group filled with the zero of that level.\<close>

function chunks :: "nat \<Rightarrow> 'a list \<Rightarrow> 'a list list" where
  "chunks n xs = (if n = 0 \<or> xs = [] then [] else take n xs # chunks n (drop n xs))"
  by pat_completeness auto
termination
  by (relation "measure (\<lambda>(n, xs). length xs)") auto

declare chunks.simps [simp del]

definition level_up :: "hash \<Rightarrow> nat \<Rightarrow> int \<Rightarrow> int list \<Rightarrow> int list" where
  "level_up h arity zero nodes =
     map (\<lambda>children. h (children @ replicate (arity - length children) zero))
       (chunks arity nodes)"

fun root_from :: "hash \<Rightarrow> nat \<Rightarrow> nat \<Rightarrow> int \<Rightarrow> int list \<Rightarrow> int" where
  "root_from h arity 0 zero nodes = (case nodes of [] \<Rightarrow> zero | node # _ \<Rightarrow> node)"
| "root_from h arity (Suc level) zero nodes =
     root_from h arity level (h (replicate arity zero)) (level_up h arity zero nodes)"

definition tree_root :: "IncrementalMerkleTree \<Rightarrow> int" where
  "tree_root t =
     root_from (tree_hash t) (tree_arity t) (nat (tree_depth t)) (tree_zero t) (tree_leaves t)"

section \<open>Membership registry (\<^verbatim>\<open>src/registry/index.ts\<close>)\<close>

text \<open>
  The three private fields of the class.  \<^verbatim>\<open>_merkleTree\<close> is undefined (\<open>None\<close>) from
  construction until \<^verbatim>\<open>init\<close> has assigned it.  \<^verbatim>\<open>Member\<close> (of the missing \<^verbatim>\<open>./types\<close>)
  is a \<^verbatim>\<open>bigint\<close>, and a tree depth or an index, a JavaScript \<^verbatim>\<open>number\<close>, is an integer.
\<close>

record Registry =
  field_merkleTree :: "IncrementalMerkleTree option"
  field_treeDepth :: int
  field_zeroValue :: int

text \<open>\<^verbatim>\<open>constructor(treeDepth = 20, zeroValue = BigInt(0))\<close>: \<open>None\<close> is an omitted argument.\<close>

definition Registry_constructor :: "int option \<Rightarrow> int option \<Rightarrow> error + Registry" where
  "Registry_constructor treeDepth zeroValue =
     (let treeDepth = (case treeDepth of None \<Rightarrow> 20 | Some d \<Rightarrow> d);
          zeroValue = (case zeroValue of None \<Rightarrow> 0 | Some z \<Rightarrow> z)
      in if treeDepth < 16 \<or> treeDepth > 32 then Inl InvalidConfiguration
         else Inr \<lparr>field_merkleTree = None,
                   field_treeDepth = treeDepth,
                   field_zeroValue = zeroValue\<rparr>)"

text \<open>\<^verbatim>\<open>init\<close>, once \<^verbatim>\<open>buildPoseidon()\<close> has resolved with the hash \<open>h\<close>.\<close>

definition Registry_init :: "hash \<Rightarrow> Registry \<Rightarrow> Registry" where
  "Registry_init h r =
     r\<lparr>field_merkleTree := Some (tree_new h (field_treeDepth r) (field_zeroValue r) 2)\<rparr>"

text \<open>Reading a property of \<^verbatim>\<open>this._merkleTree\<close>, which raises when the tree is undefined.\<close>

definition with_tree :: "Registry \<Rightarrow> (IncrementalMerkleTree \<Rightarrow> 'a) \<Rightarrow> error + 'a" where
  "with_tree r f =
     (case field_merkleTree r of None \<Rightarrow> Inl NotInitialized | Some t \<Rightarrow> Inr (f t))"

definition Registry_root :: "Registry \<Rightarrow> error + int" where
  "Registry_root r = with_tree r tree_root"

definition Registry_depth :: "Registry \<Rightarrow> error + int" where
  "Registry_depth r = with_tree r tree_depth"

text \<open>\<^verbatim>\<open>this._merkleTree.zeroes[0]\<close>: the zero of the leaf level.\<close>

definition Registry_zeroValue :: "Registry \<Rightarrow> error + int" where
  "Registry_zeroValue r = with_tree r tree_zero"

definition Registry_members :: "Registry \<Rightarrow> error + int list" where
  "Registry_members r = with_tree r tree_leaves"

definition indexOf :: "int \<Rightarrow> Registry \<Rightarrow> error + int" where
  "indexOf member r = with_tree r (tree_indexOf member)"

text \<open>The two methods that change the tree return the registry together with the
  outcome: a failed call leaves the registry as it was.\<close>

definition update_tree ::
  "(IncrementalMerkleTree \<Rightarrow> error + IncrementalMerkleTree) \<Rightarrow> Registry \<Rightarrow> (error + unit) \<times> Registry" where
  "update_tree f r =
     (case field_merkleTree r of
        None \<Rightarrow> (Inl NotInitialized, r)
      | Some t \<Rightarrow>
          (case f t of
             Inl e \<Rightarrow> (Inl e, r)
           | Inr t' \<Rightarrow> (Inr (), r\<lparr>field_merkleTree := Some t'\<rparr>)))"

definition addMember :: "int \<Rightarrow> Registry \<Rightarrow> (error + unit) \<times> Registry" where
  "addMember identityCommitment r = update_tree (tree_insert identityCommitment) r"

text \<open>The loop of \<^verbatim>\<open>addMembers\<close>: the first failure ends it, and the members added before
  stay in the tree.\<close>

fun addMembers :: "int list \<Rightarrow> Registry \<Rightarrow> (error + unit) \<times> Registry" where
  "addMembers [] r = (Inr (), r)"
| "addMembers (identityCommitment # identityCommitments) r =
     (case addMember identityCommitment r of
        (Inl e, r') \<Rightarrow> (Inl e, r')
      | (Inr u, r') \<Rightarrow> addMembers identityCommitments r')"

definition removeMember :: "int \<Rightarrow> Registry \<Rightarrow> (error + unit) \<times> Registry" where
  "removeMember index r = update_tree (tree_delete index) r"

text \<open>The members the class declares, by name: the constructor, four getters and five
  methods.\<close>

datatype member_kind = Constructor | Getter | Method

definition Registry_prototype :: "string \<rightharpoonup> member_kind" where
  "Registry_prototype = map_of
     [(''constructor'', Constructor),
      (''root'', Getter),
      (''depth'', Getter),
      (''zeroValue'', Getter),
      (''members'', Getter),
      (''init'', Method),
      (''indexOf'', Method),
      (''addMember'', Method),
      (''addMembers'', Method),
      (''removeMember'', Method)]"

section \<open>Field arithmetic: the inverse\<close>

lemma egcd_bezout: "int a * fst (egcd a b) + int b * snd (egcd a b) = int (gcd a b)"
proof (induction a b rule: egcd.induct)
  case (1 a b)
  show ?case
  proof (cases "b = 0")
    case True
    then show ?thesis by (simp add: egcd.simps)
  next
    case False
    obtain s t where st: "egcd b (a mod b) = (s, t)" by (cases "egcd b (a mod b)")
    from "1.IH" [OF False] st have ih: "int b * s + int (a mod b) * t = int (gcd b (a mod b))"
      by simp
    have "int a = int (a div b) * int b + int (a mod b)"
      by (metis div_mult_mod_eq of_nat_add of_nat_mult)
    then have "int a * t + int b * (s - int (a div b) * t) = int b * s + int (a mod b) * t"
      by (simp add: algebra_simps)
    with ih False st show ?thesis
      by (simp add: egcd.simps [of a b] gcd.commute gcd_red_nat [symmetric])
  qed
qed

lemma is_prime_coprime:
  assumes "is_prime p" and "0 < r" and "r < p"
  shows "gcd r p = 1"
proof -
  let ?g = "gcd r p"
  have g_pos: "0 < ?g" using assms(2) by simp
  have "?g dvd r" by simp
  then have "?g \<le> r" using assms(2) by (rule zdvd_imp_le)
  then have g_lt: "?g < p" using assms(3) by simp
  have "\<not> 2 \<le> ?g"
  proof
    assume "2 \<le> ?g"
    then have "?g \<in> set [2..p - 1]" using g_lt by simp
    moreover have "?g dvd p" by simp
    ultimately show False using assms(1) unfolding is_prime_def by blast
  qed
  with g_pos show ?thesis by linarith
qed

lemma Fq_inv_correct:
  assumes "is_prime p" and "b mod p \<noteq> 0"
  shows "\<exists>i. Fq_inv p b = Inr i \<and> (b * i) mod p = 1"
proof -
  let ?r = "b mod p"
  let ?s = "fst (egcd (nat ?r) (nat p))"
  let ?t = "snd (egcd (nat ?r) (nat p))"
  from assms(1) have p1: "1 < p" by (simp add: is_prime_def)
  then have r_bounds: "0 \<le> ?r" "?r < p" by simp_all
  with assms(2) have r_pos: "0 < ?r" by linarith
  have nat_r: "int (nat ?r) = ?r" and nat_p: "int (nat p) = p"
    using r_bounds(1) p1 by simp_all
  have "gcd ?r p = 1" using assms(1) r_pos r_bounds(2) by (rule is_prime_coprime)
  then have "gcd (int (nat ?r)) (int (nat p)) = 1" by (simp only: nat_r nat_p)
  then have "int (gcd (nat ?r) (nat p)) = 1" by (simp only: gcd_int_int_eq)
  with egcd_bezout [of "nat ?r" "nat p"] have "?r * ?s + p * ?t = 1"
    by (simp only: nat_r nat_p)
  then have "?r * ?s = 1 + p * (- ?t)" by simp
  then have "(?r * ?s) mod p = (1 + p * (- ?t)) mod p" by simp
  also have "\<dots> = 1 mod p" by (rule mod_mult_self2)
  also have "\<dots> = 1" using p1 by simp
  finally have rs: "(?r * ?s) mod p = 1" .
  have "(b * (?s mod p)) mod p = (?r * ?s) mod p"
    by (simp add: mod_simps)
  with rs have "(b * (?s mod p)) mod p = 1" by simp
  moreover have "Fq_inv p b = Inr (?s mod p)"
    using assms(2) by (simp add: Fq_inv_def Fq_normalize_def)
  ultimately show ?thesis by blast
qed

section \<open>The hash primitive, once built\<close>

lemma poseidon_ready: "poseidon_slot s = Some h \<Longrightarrow> poseidon input s = (Inr (h input), s)"
  by (simp add: poseidon_def)

text \<open>The first use fails and starts a build; once the build has resolved, the
  primitive answers.\<close>

lemma poseidon_after_build:
  "poseidon_slot (buildPoseidon_resolved h (snd (poseidon input RLN_initial))) = Some h"
  by (simp add: poseidon_def RLN_initial_def buildPoseidon_resolved_def)

lemma calculateOutput_ready:
  "poseidon_slot s = Some h \<Longrightarrow>
   calculateOutput p identitySecret epoch rlnIdentifier x s =
     (Inr [(h [identitySecret, epoch] * x + identitySecret) mod p,
           h [h [identitySecret, epoch], rlnIdentifier]], s)"
  by (simp add: calculateOutput_def genNullifier_def poseidon_ready Fq_normalize_def)

section \<open>Secret recovery from two shares\<close>

lemma line_through_two_shares:
  fixes p a s x1 x2 i :: int
  assumes inv: "(((x2 - x1) mod p) * i) mod p = 1"
  shows "((a * x1 + s) mod p
          - ((((a * x2 + s) mod p - (a * x1 + s) mod p) mod p * i) mod p * x1) mod p) mod p mod p
         = s mod p"
proof -
  have one: "((x2 - x1) * i) mod p = 1"
    using inv by (simp add: mod_simps)
  have "(((a * x2 + s) mod p - (a * x1 + s) mod p) mod p * i) mod p
        = (a * ((x2 - x1) * i)) mod p"
    by (simp add: mod_simps algebra_simps)
  also have "\<dots> = (a * (((x2 - x1) * i) mod p)) mod p"
    by (simp add: mod_simps)
  also have "\<dots> = a mod p"
    by (simp add: one)
  finally have slope: "(((a * x2 + s) mod p - (a * x1 + s) mod p) mod p * i) mod p = a mod p" .
  show ?thesis
    unfolding slope by (simp add: mod_simps)
qed

text \<open>
  C1.  For a prime modulus \<open>p\<close>, a built hash primitive, and any identity secret, epoch
  and identifier: when \<open>x1\<close> and \<open>x2\<close> differ modulo \<open>p\<close>, the two calls of
  \<open>calculateOutput\<close> return shares \<open>y1\<close> and \<open>y2\<close>, and \<open>retrieveSecret\<close> on
  \<open>(x1, x2, y1, y2)\<close> returns the canonical representative of the identity secret.
\<close>

theorem retrieveSecret_recovers:
  assumes "is_prime p"
    and "poseidon_slot s = Some h" and "poseidon_slot s' = Some h"
    and "x1 mod p \<noteq> x2 mod p"
  shows "\<exists>y1 n1 y2 n2.
           fst (calculateOutput p identitySecret epoch rlnIdentifier x1 s) = Inr [y1, n1]
         \<and> fst (calculateOutput p identitySecret epoch rlnIdentifier x2 s') = Inr [y2, n2]
         \<and> retrieveSecret p x1 x2 y1 y2 = Inr (Fq_normalize p identitySecret)
         \<and> 0 \<le> Fq_normalize p identitySecret \<and> Fq_normalize p identitySecret < p"
proof -
  let ?a = "h [identitySecret, epoch]"
  let ?y1 = "(?a * x1 + identitySecret) mod p"
  let ?y2 = "(?a * x2 + identitySecret) mod p"
  from assms(1) have p1: "1 < p" by (simp add: is_prime_def)
  have "(x2 - x1) mod p \<noteq> 0"
    using assms(4) by (metis mod_eq_dvd_iff mod_0_imp_dvd)
  then have "((x2 - x1) mod p) mod p \<noteq> 0" by simp
  with assms(1) obtain i where i: "Fq_inv p ((x2 - x1) mod p) = Inr i"
      and inv: "(((x2 - x1) mod p) * i) mod p = 1"
    using Fq_inv_correct by blast
  have "retrieveSecret p x1 x2 ?y1 ?y2 = Inr (identitySecret mod p)"
    using line_through_two_shares [OF inv, of ?a identitySecret]
    by (simp add: retrieveSecret_def Fq_div_def Fq_sub_def Fq_mul_def Fq_normalize_def i)
  then show ?thesis
    using assms(2,3) p1 by (simp add: calculateOutput_ready Fq_normalize_def)
qed

theorem retrieveSecret_recovers_witness:
  "\<exists>y1 n1 y2 n2.
     fst (calculateOutput 13 9 4 42 2
            (buildPoseidon_resolved sum_list (snd (poseidon [] RLN_initial)))) = Inr [y1, n1]
   \<and> fst (calculateOutput 13 9 4 42 5
            (buildPoseidon_resolved sum_list (snd (poseidon [] RLN_initial)))) = Inr [y2, n2]
   \<and> retrieveSecret 13 2 5 y1 y2 = Inr (Fq_normalize 13 9)
   \<and> 0 \<le> Fq_normalize 13 9 \<and> Fq_normalize 13 9 < 13"
  by (rule retrieveSecret_recovers [where h = sum_list])
    (simp_all add: is_prime_def poseidon_after_build)

text \<open>
  C2.  With the hash primitive \<open>h\<close> built and a positive modulus, \<open>calculateOutput\<close>
  returns the pair \<open>[y, nullifier]\<close> where \<open>a1 = h [identitySecret, epoch]\<close>, \<open>y\<close> is the
  canonical representative of \<open>a1 * x + identitySecret\<close> in \<open>[0, p)\<close>, and
  \<open>nullifier = h [a1, rlnIdentifier]\<close>; \<open>genNullifier a1 rlnIdentifier\<close> is
  \<open>h [a1, rlnIdentifier]\<close>.
\<close>

theorem calculateOutput_spec:
  assumes "poseidon_slot s = Some h" and "0 < p"
  shows "\<exists>a1 y nullifier.
           calculateOutput p identitySecret epoch rlnIdentifier x s = (Inr [y, nullifier], s)
         \<and> a1 = h [identitySecret, epoch]
         \<and> y = Fq_normalize p (a1 * x + identitySecret)
         \<and> y = (a1 * x + identitySecret) mod p \<and> 0 \<le> y \<and> y < p
         \<and> nullifier = h [a1, rlnIdentifier]
         \<and> genNullifier a1 rlnIdentifier s = (Inr nullifier, s)
         \<and> (\<forall>b. genNullifier b rlnIdentifier s = (Inr (h [b, rlnIdentifier]), s))"
  using assms
  by (simp add: calculateOutput_ready genNullifier_def poseidon_ready Fq_normalize_def)

theorem calculateOutput_spec_witness:
  "calculateOutput 13 9 4 42 2 (buildPoseidon_resolved sum_list (snd (poseidon [] RLN_initial)))
     = (Inr [9, 55], buildPoseidon_resolved sum_list (snd (poseidon [] RLN_initial)))"
  using calculateOutput_spec [of "buildPoseidon_resolved sum_list (snd (poseidon [] RLN_initial))"
      sum_list 13 9 4 42 2]
  by (simp add: poseidon_after_build)

text \<open>
  C3.  \<open>retrieveSecret\<close> on two shares with the same \<open>x\<close> fails with \<open>DivisionByZero\<close>,
  whatever \<open>y1\<close> and \<open>y2\<close> are; and \<open>retrieveSecret\<close> fails, with that error, exactly
  when \<open>x1\<close> and \<open>x2\<close> are congruent modulo \<open>p\<close>.
\<close>

theorem retrieveSecret_division_by_zero:
  "retrieveSecret p x x y1 y2 = Inl DivisionByZero
   \<and> (retrieveSecret p x1 x2 y1 y2 = Inl DivisionByZero \<longleftrightarrow> x1 mod p = x2 mod p)
   \<and> ((\<exists>e. retrieveSecret p x1 x2 y1 y2 = Inl e) \<longleftrightarrow> x1 mod p = x2 mod p)"
proof -
  have eq: "(x2 - x1) mod p = 0 \<longleftrightarrow> x1 mod p = x2 mod p"
    by (metis mod_eq_dvd_iff mod_0_imp_dvd dvd_imp_mod_0)
  show ?thesis
    by (auto simp add: retrieveSecret_def Fq_div_def Fq_inv_def Fq_sub_def Fq_normalize_def eq
        split: sum.splits)
qed

theorem retrieveSecret_division_by_zero_witness:
  "retrieveSecret 13 7 7 3 4 = Inl DivisionByZero
   \<and> retrieveSecret 13 2 15 3 4 = Inl DivisionByZero
   \<and> retrieveSecret 13 2 5 3 4 \<noteq> Inl DivisionByZero"
  using retrieveSecret_division_by_zero [of 13 7 3 4 2 15]
    retrieveSecret_division_by_zero [of 13 7 3 4 2 5]
  by simp

section \<open>Signal hash, witness and public signals\<close>

lemma foldl_bytes_bound:
  "0 \<le> acc \<Longrightarrow> acc < 256 ^ k \<Longrightarrow>
   0 \<le> foldl (\<lambda>acc b. acc * 256 + uint (b::byte)) acc bs
   \<and> foldl (\<lambda>acc b. acc * 256 + uint b) acc bs < 256 ^ (k + length bs)"
proof (induction bs arbitrary: acc k)
  case Nil
  then show ?case by simp
next
  case (Cons b bs)
  have b: "0 \<le> uint b" "uint b < 256"
    using uint_lt2p [of b] by simp_all
  from Cons.prems have "acc + 1 \<le> 256 ^ k" by simp
  then have "(acc + 1) * 256 \<le> 256 ^ k * 256" by (rule mult_right_mono) simp
  then have lt: "acc * 256 + uint b < 256 ^ Suc k" using b by (simp add: algebra_simps)
  have ge: "0 \<le> acc * 256 + uint b" using Cons.prems b by simp
  from Cons.IH [OF ge lt] show ?case by simp
qed

lemma BigInt_of_bytes_bound: "0 \<le> BigInt_of_bytes bs \<and> BigInt_of_bytes bs < 256 ^ length bs"
  using foldl_bytes_bound [of 0 0 bs] by (simp add: BigInt_of_bytes_def)

lemma BigInt_of_bytes_snoc: "BigInt_of_bytes (bs @ [b]) = BigInt_of_bytes bs * 256 + uint b"
  by (simp add: BigInt_of_bytes_def)

lemma BigInt_of_bytes_sum:
  "BigInt_of_bytes bs = (\<Sum>i<length bs. uint (bs ! i) * 256 ^ (length bs - 1 - i))"
proof (induction bs rule: rev_induct)
  case Nil
  then show ?case by (simp add: BigInt_of_bytes_def)
next
  case (snoc b bs)
  have "(\<Sum>i<length bs. uint ((bs @ [b]) ! i) * 256 ^ (length bs - i))
        = (\<Sum>i<length bs. uint (bs ! i) * 256 ^ (length bs - 1 - i) * 256)"
  proof (rule sum.cong)
    fix i assume "i \<in> {..<length bs}"
    then have i: "i < length bs" by simp
    then have "length bs - i = Suc (length bs - 1 - i)" by simp
    then show "uint ((bs @ [b]) ! i) * 256 ^ (length bs - i)
        = uint (bs ! i) * 256 ^ (length bs - 1 - i) * 256"
      using i by (simp add: nth_append)
  qed simp
  also have "\<dots> = BigInt_of_bytes bs * 256"
    by (simp add: snoc.IH sum_distrib_right)
  finally show ?case
    by (simp add: BigInt_of_bytes_snoc)
qed

lemma BigInt_of_bytes_drop_last:
  "bs \<noteq> [] \<Longrightarrow> BigInt_of_bytes bs div 2 ^ 8 = BigInt_of_bytes (butlast bs)"
proof -
  assume "bs \<noteq> []"
  then obtain cs b where bs: "bs = cs @ [b]" by (metis append_butlast_last_id)
  have b: "0 \<le> uint b" "uint b < 256" using uint_lt2p [of b] by simp_all
  have "(BigInt_of_bytes cs * 256 + uint b) div 256 = BigInt_of_bytes cs"
    using b by simp
  then show ?thesis by (simp add: bs BigInt_of_bytes_snoc)
qed

lemma BigInt_of_bytes_take:
  assumes "n \<le> length bs"
  shows "(\<Sum>i<n. uint (bs ! i) * 256 ^ (n - 1 - i)) = BigInt_of_bytes (take n bs)"
  using BigInt_of_bytes_sum [of "take n bs"] assms by (simp add: min_absorb2)

text \<open>
  C4.  \<open>genSignalHash signal\<close> is the Keccak digest of the UTF-8 bytes of \<open>signal\<close>, read
  as a big-endian integer (byte \<open>i\<close> of the 32 weighs \<open>256 ^ (31 - i)\<close>) and shifted right
  by 8 bits, which is the big-endian integer of the first 31 bytes.  The result is not
  negative and below \<open>2 ^ 248\<close>, hence inside any field whose modulus is at least
  \<open>2 ^ 248\<close> (the scalar field prime is); and strings with the same bytes, the same
  string above all, give the same value.
\<close>

theorem genSignalHash_spec:
  assumes "length (keccak256 (toUtf8Bytes signal)) = 32" and "2 ^ 248 \<le> p"
  shows "genSignalHash toUtf8Bytes keccak256 signal
           = (\<Sum>i<32. uint (keccak256 (toUtf8Bytes signal) ! i) * 256 ^ (31 - i)) div 2 ^ 8
         \<and> genSignalHash toUtf8Bytes keccak256 signal
           = (\<Sum>i<31. uint (keccak256 (toUtf8Bytes signal) ! i) * 256 ^ (30 - i))
         \<and> 0 \<le> genSignalHash toUtf8Bytes keccak256 signal
         \<and> genSignalHash toUtf8Bytes keccak256 signal < 2 ^ 248
         \<and> genSignalHash toUtf8Bytes keccak256 signal < p
         \<and> (\<forall>signal'. toUtf8Bytes signal' = toUtf8Bytes signal \<longrightarrow>
              genSignalHash toUtf8Bytes keccak256 signal'
                = genSignalHash toUtf8Bytes keccak256 signal)"
proof -
  let ?d = "keccak256 (toUtf8Bytes signal)"
  let ?n = "BigInt_of_bytes ?d"
  have eq: "genSignalHash toUtf8Bytes keccak256 signal = ?n div 2 ^ 8"
    by (simp add: genSignalHash_def drop_bit_eq_div)
  have full: "?n = (\<Sum>i<32. uint (?d ! i) * 256 ^ (31 - i))"
    using BigInt_of_bytes_sum [of ?d] assms(1) by simp
  have ne: "?d \<noteq> []" using assms(1) by auto
  have "?n div 2 ^ 8 = BigInt_of_bytes (butlast ?d)"
    using ne by (rule BigInt_of_bytes_drop_last)
  also have "\<dots> = (\<Sum>i<31. uint (butlast ?d ! i) * 256 ^ (30 - i))"
    using BigInt_of_bytes_sum [of "butlast ?d"] assms(1) by simp
  also have "\<dots> = (\<Sum>i<31. uint (?d ! i) * 256 ^ (30 - i))"
    using assms(1) by (intro sum.cong) (simp_all add: nth_butlast)
  finally have short: "?n div 2 ^ 8 = (\<Sum>i<31. uint (?d ! i) * 256 ^ (30 - i))" .
  have n: "0 \<le> ?n" "?n < 256 ^ 32"
    using BigInt_of_bytes_bound [of ?d] assms(1) by simp_all
  have "?n < 2 ^ 248 * 2 ^ 8" using n(2) by simp
  then have lt248: "?n div 2 ^ 8 < 2 ^ 248"
    by (simp add: div_less_iff_less_mult)
  with assms(2) have lt: "?n div 2 ^ 8 < p" by linarith
  have ge: "0 \<le> ?n div 2 ^ 8" using n(1) by (simp add: pos_imp_zdiv_nonneg_iff)
  have det: "\<forall>signal'. toUtf8Bytes signal' = toUtf8Bytes signal \<longrightarrow>
              genSignalHash toUtf8Bytes keccak256 signal'
                = genSignalHash toUtf8Bytes keccak256 signal"
    by (simp add: genSignalHash_def)
  show ?thesis
    unfolding eq using full short lt248 lt ge det [unfolded eq]
    by (simp add: genSignalHash_def drop_bit_eq_div)
qed

text \<open>An instance: the scalar field prime of BN254 for \<open>p\<close>, and a digest that starts with
  the bytes 1, 2, 3 and ends with the byte 255, which the shift drops.\<close>

theorem genSignalHash_spec_witness:
  "length [1, 2, 3, 0, 0, 0, 0, 0, 0, 0, 0, 0, 0, 0, 0, 0,
           0, 0, 0, 0, 0, 0, 0, 0, 0, 0, 0, 0, 0, 0, 0, 255 :: byte] = 32
   \<and> (2 ^ 248 :: int)
       \<le> 21888242871839275222246405745257275088548364400416034343698204186575808495617
   \<and> genSignalHash (map (\<lambda>c. of_nat (of_char c)))
        (\<lambda>bs. [1, 2, 3, 0, 0, 0, 0, 0, 0, 0, 0, 0, 0, 0, 0, 0,
               0, 0, 0, 0, 0, 0, 0, 0, 0, 0, 0, 0, 0, 0, 0, 255])
        ''hello''
       = 66051 * 256 ^ 28
   \<and> genSignalHash (map (\<lambda>c. of_nat (of_char c)))
        (\<lambda>bs. [1, 2, 3, 0, 0, 0, 0, 0, 0, 0, 0, 0, 0, 0, 0, 0,
               0, 0, 0, 0, 0, 0, 0, 0, 0, 0, 0, 0, 0, 0, 0, 255])
        ''hello''
       < 21888242871839275222246405745257275088548364400416034343698204186575808495617"
proof -
  let ?d = "[1, 2, 3, 0, 0, 0, 0, 0, 0, 0, 0, 0, 0, 0, 0, 0,
             0, 0, 0, 0, 0, 0, 0, 0, 0, 0, 0, 0, 0, 0, 0, 255 :: byte]"
  let ?k = "\<lambda>bs :: byte list. ?d"
  let ?u = "map (\<lambda>c. of_nat (of_char c) :: byte)"
  have len: "length (?k (?u ''hello'')) = 32" by simp
  have p: "(2 ^ 248 :: int)
       \<le> 21888242871839275222246405745257275088548364400416034343698204186575808495617"
    by simp
  note spec = genSignalHash_spec [of ?k ?u "''hello''", OF len p]
  have "(\<Sum>i<31. uint (?d ! i) * 256 ^ (30 - i)) = BigInt_of_bytes (take 31 ?d)"
    using BigInt_of_bytes_take [of 31 ?d] by simp
  also have "\<dots> = 66051 * 256 ^ 28"
    by (simp add: BigInt_of_bytes_def)
  finally have "(\<Sum>i<31. uint (?d ! i) * 256 ^ (30 - i)) = (66051 * 256 ^ 28 :: int)" .
  with spec len p show ?thesis by simp
qed

text \<open>
  C5.  \<open>genWitness\<close> returns the bundle of exactly the identity secret, the proof's
  siblings, the proof's path indices, \<open>x\<close>, the epoch and the identifier, where \<open>x\<close> is
  \<open>genSignalHash signal\<close> when \<open>shouldHash\<close> is true or omitted, and the signal itself
  when \<open>shouldHash\<close> is false.
\<close>

theorem genWitness_spec:
  "genWitness toUtf8Bytes keccak256 identitySecret merkleProof epoch signal rlnIdentifier shouldHash
     = \<lparr>identity_secret = identitySecret,
        path_elements = siblings merkleProof,
        identity_path_index = pathIndices merkleProof,
        witness_x = (if shouldHash = Some False then Str signal
                     else Big (genSignalHash toUtf8Bytes keccak256 signal)),
        witness_epoch = epoch,
        rln_identifier = rlnIdentifier\<rparr>"
  by (simp add: genWitness_def split: option.splits)

theorem genWitness_spec_witness:
  "witness_x (genWitness (map (\<lambda>c. of_nat (of_char c))) (\<lambda>bs. replicate 32 1) 9
       \<lparr>proof_root = 0, proof_leaf = 5, siblings = [1, 2], pathIndices = [0, 1]\<rparr>
       (Big 7) ''hello'' 42 None)
     = Big (genSignalHash (map (\<lambda>c. of_nat (of_char c))) (\<lambda>bs. replicate 32 1) ''hello'')
   \<and> witness_x (genWitness (map (\<lambda>c. of_nat (of_char c))) (\<lambda>bs. replicate 32 1) 9
       \<lparr>proof_root = 0, proof_leaf = 5, siblings = [1, 2], pathIndices = [0, 1]\<rparr>
       (Big 7) ''hello'' 42 (Some False))
     = Str ''hello''
   \<and> path_elements (genWitness (map (\<lambda>c. of_nat (of_char c))) (\<lambda>bs. replicate 32 1) 9
       \<lparr>proof_root = 0, proof_leaf = 5, siblings = [1, 2], pathIndices = [0, 1]\<rparr>
       (Big 7) ''hello'' 42 (Some True))
     = [1, 2]"
  using genWitness_spec [of "map (\<lambda>c. of_nat (of_char c))" "\<lambda>bs. replicate 32 1" 9
      "\<lparr>proof_root = 0, proof_leaf = 5, siblings = [1, 2], pathIndices = [0, 1]\<rparr>"
      "Big 7" "''hello''" 42 None]
    genWitness_spec [of "map (\<lambda>c. of_nat (of_char c))" "\<lambda>bs. replicate 32 1" 9
      "\<lparr>proof_root = 0, proof_leaf = 5, siblings = [1, 2], pathIndices = [0, 1]\<rparr>"
      "Big 7" "''hello''" 42 "Some False"]
    genWitness_spec [of "map (\<lambda>c. of_nat (of_char c))" "\<lambda>bs. replicate 32 1" 9
      "\<lparr>proof_root = 0, proof_leaf = 5, siblings = [1, 2], pathIndices = [0, 1]\<rparr>"
      "Big 7" "''hello''" 42 "Some True"]
  by simp

text \<open>
  C10.  When the backend returns a proof and six public signals, \<open>genProof\<close> names them
  \<open>yShare\<close>, \<open>merkleRoot\<close>, \<open>internalNullifier\<close>, \<open>signalHash\<close>, \<open>epoch\<close>, \<open>rlnIdentifier\<close>
  from the indices 0 to 5; \<open>verifyProof\<close> hands the backend the public signals of any
  full proof as the array of those six fields in that order; so \<open>verifyProof\<close> on the
  result of \<open>genProof\<close> hands the backend the six signals the backend produced, in
  their order, with the same proof.
\<close>

theorem proof_signals_roundtrip:
  assumes "fullProve wit wasmFilePath finalZkeyPath = Inr (prf, signals)"
    and "length signals = 6"
  shows "\<exists>fp. genProof fullProve wit wasmFilePath finalZkeyPath = Inr fp
           \<and> fullProof_proof fp = prf
           \<and> yShare (publicSignals fp) = Some (signals ! 0)
           \<and> merkleRoot (publicSignals fp) = Some (signals ! 1)
           \<and> internalNullifier (publicSignals fp) = Some (signals ! 2)
           \<and> signalHash (publicSignals fp) = Some (signals ! 3)
           \<and> publicEpoch (publicSignals fp) = Some (signals ! 4)
           \<and> publicRlnIdentifier (publicSignals fp) = Some (signals ! 5)
           \<and> verifyProof verify verificationKey fp
               = verify verificationKey (map Some signals) prf
           \<and> (\<forall>fp'. verifyProof verify verificationKey fp'
                  = verify verificationKey
                      [yShare (publicSignals fp'), merkleRoot (publicSignals fp'),
                       internalNullifier (publicSignals fp'), signalHash (publicSignals fp'),
                       publicEpoch (publicSignals fp'), publicRlnIdentifier (publicSignals fp')]
                      (fullProof_proof fp'))"
proof -
  from assms(2) obtain a b c d e f where s: "signals = [a, b, c, d, e, f]"
    by (auto simp: length_Suc_conv eval_nat_numeral)
  show ?thesis
    using assms(1) by (simp add: genProof_def verifyProof_def js_index_def s)
qed

text \<open>An instance: a backend that proves with the signals 1 to 6 and accepts exactly them.\<close>

theorem proof_signals_roundtrip_witness:
  "\<exists>fp. genProof (\<lambda>w a b. Inr (True, [Big 1, Big 2, Big 3, Big 4, Big 5, Big 6]))
           (0 :: nat) ''rln.wasm'' ''rln.zkey'' = Inr fp
     \<and> yShare (publicSignals fp) = Some (Big 1)
     \<and> publicRlnIdentifier (publicSignals fp) = Some (Big 6)
     \<and> verifyProof
         (\<lambda>k sigs prf. Inr (prf \<and> sigs = map Some [Big 1, Big 2, Big 3, Big 4, Big 5, Big 6]))
         ''key'' fp = Inr True"
  using proof_signals_roundtrip [of "\<lambda>w a b. Inr (True, [Big 1, Big 2, Big 3, Big 4, Big 5, Big 6])"
      "0 :: nat" "''rln.wasm''" "''rln.zkey''" True "[Big 1, Big 2, Big 3, Big 4, Big 5, Big 6]"
      "\<lambda>k sigs prf. Inr (prf \<and> sigs = map Some [Big 1, Big 2, Big 3, Big 4, Big 5, Big 6])"
      "''key''"]
  by auto

section \<open>The registry\<close>

lemma with_tree_None: "field_merkleTree r = None \<Longrightarrow> with_tree r f = Inl NotInitialized"
  by (simp add: with_tree_def)

lemma update_tree_None: "field_merkleTree r = None \<Longrightarrow> update_tree f r = (Inl NotInitialized, r)"
  by (simp add: update_tree_def)

lemma addMembers_None:
  "field_merkleTree r = None \<Longrightarrow> ms \<noteq> [] \<Longrightarrow> addMembers ms r = (Inl NotInitialized, r)"
  by (cases ms) (simp_all add: addMember_def update_tree_None)

lemma addMember_ok:
  assumes "field_merkleTree r = Some t" and "length (tree_leaves t) < tree_capacity t"
  shows "addMember m r
           = (Inr (), r\<lparr>field_merkleTree := Some (t\<lparr>tree_leaves := tree_leaves t @ [m]\<rparr>)\<rparr>)"
  using assms by (simp add: addMember_def update_tree_def tree_insert_def)

lemma addMember_full:
  assumes "field_merkleTree r = Some t" and "tree_capacity t \<le> length (tree_leaves t)"
  shows "addMember m r = (Inl CapacityExceeded, r)"
  using assms by (simp add: addMember_def update_tree_def tree_insert_def)

text \<open>As long as the capacity allows, \<open>addMembers\<close> appends the whole sequence.\<close>

lemma addMembers_within_capacity:
  assumes "field_merkleTree r = Some t"
    and "length (tree_leaves t) + length ms \<le> tree_capacity t"
  shows "addMembers ms r
           = (Inr (), r\<lparr>field_merkleTree := Some (t\<lparr>tree_leaves := tree_leaves t @ ms\<rparr>)\<rparr>)"
  using assms
proof (induction ms arbitrary: r t)
  case Nil
  then show ?case by simp
next
  case (Cons m ms)
  let ?t = "t\<lparr>tree_leaves := tree_leaves t @ [m]\<rparr>"
  let ?r = "r\<lparr>field_merkleTree := Some ?t\<rparr>"
  from Cons.prems have step: "addMember m r = (Inr (), ?r)"
    by (intro addMember_ok) simp_all
  have "field_merkleTree ?r = Some ?t" by simp
  moreover have "length (tree_leaves ?t) + length ms \<le> tree_capacity ?t"
    using Cons.prems(2) by (simp add: tree_capacity_def)
  ultimately have "addMembers ms ?r
      = (Inr (), ?r\<lparr>field_merkleTree := Some (?t\<lparr>tree_leaves := tree_leaves ?t @ ms\<rparr>)\<rparr>)"
    by (rule Cons.IH)
  with step show ?case by simp
qed

text \<open>
  C6.  The constructor fails with \<open>InvalidConfiguration\<close>, returning no registry, for a
  depth below 16 or above 32, and accepts every depth \<open>d\<close> from 16 to 32; the registry
  it returns has no tree yet, and the tree that \<open>init\<close> builds for it has depth \<open>d\<close>,
  capacity \<open>2 ^ d\<close>, no member, and the zero value in every one of its \<open>2 ^ d\<close> slots:
  any sequence of at most \<open>2 ^ d\<close> members can be added, and after \<open>2 ^ d\<close> of them the
  next \<open>addMember\<close> fails with \<open>CapacityExceeded\<close>.
\<close>

theorem Registry_constructor_depth:
  "(d < 16 \<or> 32 < d \<longrightarrow> Registry_constructor (Some d) zeroValue = Inl InvalidConfiguration)
   \<and> (16 \<le> d \<and> d \<le> 32 \<longrightarrow>
        (\<exists>r t. Registry_constructor (Some d) zeroValue = Inr r
           \<and> field_merkleTree r = None
           \<and> field_merkleTree (Registry_init h r) = Some t
           \<and> Registry_depth (Registry_init h r) = Inr d
           \<and> tree_capacity t = 2 ^ nat d
           \<and> Registry_members (Registry_init h r) = Inr []
           \<and> (\<forall>i < 2 ^ nat d. tree_slot t i = (case zeroValue of None \<Rightarrow> 0 | Some z \<Rightarrow> z))
           \<and> (\<forall>ms. length ms \<le> 2 ^ nat d \<longrightarrow>
                 (\<exists>r'. addMembers ms (Registry_init h r) = (Inr (), r')
                    \<and> Registry_members r' = Inr ms
                    \<and> (length ms = 2 ^ nat d \<longrightarrow>
                         (\<forall>m. addMember m r' = (Inl CapacityExceeded, r')))))))"
proof -
  let ?z = "case zeroValue of None \<Rightarrow> 0 | Some z \<Rightarrow> z"
  let ?r = "\<lparr>field_merkleTree = None, field_treeDepth = d, field_zeroValue = ?z\<rparr>"
  let ?t = "tree_new h d ?z 2"
  have bad: "d < 16 \<or> 32 < d \<Longrightarrow> Registry_constructor (Some d) zeroValue = Inl InvalidConfiguration"
    by (auto simp add: Registry_constructor_def)
  have good: "16 \<le> d \<and> d \<le> 32 \<Longrightarrow> Registry_constructor (Some d) zeroValue = Inr ?r"
    by (simp add: Registry_constructor_def)
  have init: "field_merkleTree (Registry_init h ?r) = Some ?t"
    by (simp add: Registry_init_def)
  have cap: "tree_capacity ?t = 2 ^ nat d"
    by (simp add: tree_capacity_def tree_new_def)
  have leaves: "tree_leaves ?t = []"
    by (simp add: tree_new_def)
  have fill: "\<exists>r'. addMembers ms (Registry_init h ?r) = (Inr (), r')
                \<and> Registry_members r' = Inr ms
                \<and> (length ms = 2 ^ nat d \<longrightarrow> (\<forall>m. addMember m r' = (Inl CapacityExceeded, r')))"
    if "length ms \<le> 2 ^ nat d" for ms
  proof -
    let ?t' = "?t\<lparr>tree_leaves := tree_leaves ?t @ ms\<rparr>"
    let ?r' = "(Registry_init h ?r)\<lparr>field_merkleTree := Some ?t'\<rparr>"
    have "addMembers ms (Registry_init h ?r) = (Inr (), ?r')"
      using init that by (intro addMembers_within_capacity) (simp_all add: cap leaves)
    moreover have "Registry_members ?r' = Inr ms"
      by (simp add: Registry_members_def with_tree_def leaves)
    moreover have "addMember m ?r' = (Inl CapacityExceeded, ?r')" if "length ms = 2 ^ nat d" for m
      using that by (intro addMember_full [where t = ?t']) (simp_all add: tree_capacity_def tree_new_def)
    ultimately show ?thesis by blast
  qed
  have rest: "Registry_depth (Registry_init h ?r) = Inr d
      \<and> Registry_members (Registry_init h ?r) = Inr []
      \<and> (\<forall>i < 2 ^ nat d. tree_slot ?t i = ?z)"
    by (simp add: Registry_init_def tree_new_def Registry_depth_def Registry_members_def
        with_tree_def tree_slot_def)
  show ?thesis
    using bad good init cap rest fill by auto
qed

theorem Registry_constructor_depth_witness:
  "Registry_constructor (Some 15) (Some 0) = Inl InvalidConfiguration
   \<and> Registry_constructor (Some 33) (Some 0) = Inl InvalidConfiguration
   \<and> (\<exists>r t. Registry_constructor (Some 16) (Some 0) = Inr r
           \<and> field_merkleTree r = None
           \<and> field_merkleTree (Registry_init sum_list r) = Some t
           \<and> Registry_depth (Registry_init sum_list r) = Inr 16
           \<and> tree_capacity t = 65536
           \<and> Registry_members (Registry_init sum_list r) = Inr []
           \<and> (\<forall>i < 65536. tree_slot t i = 0)
           \<and> (\<exists>r'. addMembers [5, 6, 7] (Registry_init sum_list r) = (Inr (), r')
                \<and> Registry_members r' = Inr [5, 6, 7]))"
proof -
  have low: "Registry_constructor (Some 15) (Some 0) = Inl InvalidConfiguration"
    using Registry_constructor_depth [of 15 "Some 0" sum_list] by simp
  have high: "Registry_constructor (Some 33) (Some 0) = Inl InvalidConfiguration"
    using Registry_constructor_depth [of 33 "Some 0" sum_list] by simp
  from Registry_constructor_depth [of 16 "Some 0" sum_list]
  obtain r t where r: "Registry_constructor (Some 16) (Some 0) = Inr r"
      "field_merkleTree r = None"
      "field_merkleTree (Registry_init sum_list r) = Some t"
      "Registry_depth (Registry_init sum_list r) = Inr 16"
      "tree_capacity t = 2 ^ nat 16"
      "Registry_members (Registry_init sum_list r) = Inr []"
      "\<forall>i < 2 ^ nat 16. tree_slot t i = (case Some 0 of None \<Rightarrow> 0 | Some z \<Rightarrow> z)"
    and fill: "\<forall>ms. length ms \<le> 2 ^ nat 16 \<longrightarrow>
         (\<exists>r'. addMembers ms (Registry_init sum_list r) = (Inr (), r')
            \<and> Registry_members r' = Inr ms
            \<and> (length ms = 2 ^ nat 16 \<longrightarrow> (\<forall>m. addMember m r' = (Inl CapacityExceeded, r'))))"
    by auto
  have "length [5, 6, 7 :: int] \<le> 2 ^ nat 16" by simp
  with fill obtain r' where "addMembers [5, 6, 7] (Registry_init sum_list r) = (Inr (), r')"
      "Registry_members r' = Inr [5, 6, 7]"
    by blast
  with low high r show ?thesis
    by (intro conjI exI [of _ r] exI [of _ t] exI [of _ r']) simp_all
qed

text \<open>
  C7.  For a registry whose tree is built and an index inside the occupied range,
  \<open>removeMember index\<close> succeeds, and \<open>members\<close> afterwards is a sequence of the same
  length, with the zero value at that index and the former value at every other index.
\<close>

theorem removeMember_members:
  assumes "Registry_members r = Inr ms"
    and "0 \<le> index" and "index < int (length ms)"
  shows "\<exists>r' ms' z. removeMember index r = (Inr (), r')
           \<and> Registry_zeroValue r = Inr z
           \<and> Registry_members r' = Inr ms'
           \<and> length ms' = length ms
           \<and> ms' ! nat index = z
           \<and> (\<forall>j < length ms. j \<noteq> nat index \<longrightarrow> ms' ! j = ms ! j)"
proof -
  from assms(1) obtain t where t: "field_merkleTree r = Some t" and ms: "ms = tree_leaves t"
    by (auto simp: Registry_members_def with_tree_def split: option.splits)
  have "tree_delete index t = Inr (t\<lparr>tree_leaves := ms[nat index := tree_zero t]\<rparr>)"
    using assms(2,3) ms by (simp add: tree_delete_def)
  then have "removeMember index r
      = (Inr (), r\<lparr>field_merkleTree := Some (t\<lparr>tree_leaves := ms[nat index := tree_zero t]\<rparr>)\<rparr>)"
    using t by (simp add: removeMember_def update_tree_def)
  moreover have "nat index < length ms" using assms(2,3) by simp
  ultimately show ?thesis
    using t by (simp add: Registry_members_def Registry_zeroValue_def with_tree_def)
qed

text \<open>An instance: removing the member at index 1 of a registry of depth 16 that holds the
  members 5, 6 and 7.\<close>

theorem removeMember_members_witness:
  "Registry_members
     \<lparr>field_merkleTree = Some \<lparr>tree_hash = sum_list, tree_depth = 16, tree_zero = 0,
                               tree_arity = 2, tree_leaves = [5, 6, 7]\<rparr>,
      field_treeDepth = 16, field_zeroValue = 0\<rparr> = Inr [5, 6, 7]
   \<and> (\<exists>r' ms' z.
        removeMember 1
          \<lparr>field_merkleTree = Some \<lparr>tree_hash = sum_list, tree_depth = 16, tree_zero = 0,
                                    tree_arity = 2, tree_leaves = [5, 6, 7]\<rparr>,
           field_treeDepth = 16, field_zeroValue = 0\<rparr> = (Inr (), r')
        \<and> Registry_members r' = Inr ms'
        \<and> length ms' = 3
        \<and> ms' ! 1 = z \<and> z = 0
        \<and> (\<forall>j < 3. j \<noteq> 1 \<longrightarrow> ms' ! j = [5, 6, 7] ! j))"
proof -
  let ?r = "\<lparr>field_merkleTree = Some \<lparr>tree_hash = sum_list, tree_depth = 16, tree_zero = 0,
                                       tree_arity = 2, tree_leaves = [5, 6, 7]\<rparr>,
             field_treeDepth = 16, field_zeroValue = 0\<rparr>"
  have m: "Registry_members ?r = Inr [5, 6, 7]"
    by (simp add: Registry_members_def with_tree_def)
  have z: "Registry_zeroValue ?r = Inr 0"
    by (simp add: Registry_zeroValue_def with_tree_def)
  from removeMember_members [OF m, of 1] z m show ?thesis
    by auto
qed

text \<open>
  C8, as written: the registry exposes a \<open>membershipProof\<close> operation.  The class
  declares no member of that name.
\<close>

theorem membershipProof_counterexample:
  "Registry_prototype ''membershipProof'' = None"
  by (simp add: Registry_prototype_def)

text \<open>
  C8, amended.  The registry exposes no \<open>membershipProof\<close> operation: the members of the
  class are the constructor, the getters \<open>root\<close>, \<open>depth\<close>, \<open>zeroValue\<close>, \<open>members\<close> and
  the methods \<open>init\<close>, \<open>indexOf\<close>, \<open>addMember\<close>, \<open>addMembers\<close>, \<open>removeMember\<close>, and nothing
  else.
\<close>

theorem Registry_members_declared:
  "dom Registry_prototype =
     {''constructor'', ''root'', ''depth'', ''zeroValue'', ''members'', ''init'',
      ''indexOf'', ''addMember'', ''addMembers'', ''removeMember''}
   \<and> {name. Registry_prototype name = Some Getter}
       = {''root'', ''depth'', ''zeroValue'', ''members''}
   \<and> {name. Registry_prototype name = Some Method}
       = {''init'', ''indexOf'', ''addMember'', ''addMembers'', ''removeMember''}"
proof -
  have "dom Registry_prototype =
     {''constructor'', ''root'', ''depth'', ''zeroValue'', ''members'', ''init'',
      ''indexOf'', ''addMember'', ''addMembers'', ''removeMember''}"
    unfolding Registry_prototype_def dom_map_of_conv_image_fst by simp
  moreover have "{name. Registry_prototype name = Some Getter}
       = {''root'', ''depth'', ''zeroValue'', ''members''}"
    by (auto simp: Registry_prototype_def split: if_splits)
  moreover have "{name. Registry_prototype name = Some Method}
       = {''init'', ''indexOf'', ''addMember'', ''addMembers'', ''removeMember''}"
    by (auto simp: Registry_prototype_def split: if_splits)
  ultimately show ?thesis by simp
qed

text \<open>
  C9, as written: every registry operation invoked before the tree is built fails.
  \<open>addMembers\<close> on the empty sequence never reaches the tree, and succeeds.
\<close>

theorem addMembers_empty_counterexample:
  "field_merkleTree \<lparr>field_merkleTree = None, field_treeDepth = 20, field_zeroValue = 0\<rparr> = None
   \<and> addMembers [] \<lparr>field_merkleTree = None, field_treeDepth = 20, field_zeroValue = 0\<rparr>
       = (Inr (), \<lparr>field_merkleTree = None, field_treeDepth = 20, field_zeroValue = 0\<rparr>)"
  by simp

text \<open>
  C9, amended.  Before \<open>init\<close> has built the tree, every registry operation that reads
  the tree (\<open>root\<close>, \<open>depth\<close>, \<open>zeroValue\<close>, \<open>members\<close>, \<open>indexOf\<close>, \<open>addMember\<close>,
  \<open>removeMember\<close>, and \<open>addMembers\<close> on a sequence that is not empty) fails with
  \<open>NotInitialized\<close> and leaves the registry as it was; and while the hash primitive is
  unset, every protocol operation that calls it (\<open>poseidon\<close>, \<open>genNullifier\<close>,
  \<open>calculateOutput\<close>) fails with \<open>NotInitialized\<close>, and the primitive is still unset when
  the call has returned.  \<open>addMembers\<close> on the empty sequence succeeds and changes nothing.
\<close>

theorem operations_before_setup:
  "(field_merkleTree r = None \<longrightarrow>
      Registry_root r = Inl NotInitialized
    \<and> Registry_depth r = Inl NotInitialized
    \<and> Registry_zeroValue r = Inl NotInitialized
    \<and> Registry_members r = Inl NotInitialized
    \<and> indexOf member r = Inl NotInitialized
    \<and> addMember member r = (Inl NotInitialized, r)
    \<and> removeMember index r = (Inl NotInitialized, r)
    \<and> (identityCommitments \<noteq> [] \<longrightarrow>
         addMembers identityCommitments r = (Inl NotInitialized, r))
    \<and> addMembers [] r = (Inr (), r))
   \<and> (poseidon_slot s = None \<longrightarrow>
      fst (poseidon input s) = Inl NotInitialized
    \<and> fst (genNullifier a1 rlnIdentifier s) = Inl NotInitialized
    \<and> fst (calculateOutput p identitySecret epoch rlnIdentifier x s) = Inl NotInitialized
    \<and> poseidon_slot (snd (poseidon input s)) = None
    \<and> poseidon_slot (snd (genNullifier a1 rlnIdentifier s)) = None
    \<and> poseidon_slot (snd (calculateOutput p identitySecret epoch rlnIdentifier x s)) = None)"
  by (simp add: Registry_root_def Registry_depth_def Registry_zeroValue_def Registry_members_def
      indexOf_def with_tree_None addMember_def removeMember_def update_tree_None addMembers_None
      poseidon_def genNullifier_def calculateOutput_def)

theorem operations_before_setup_witness:
  "Registry_root \<lparr>field_merkleTree = None, field_treeDepth = 20, field_zeroValue = 0\<rparr>
     = Inl NotInitialized
   \<and> Registry_members \<lparr>field_merkleTree = None, field_treeDepth = 20, field_zeroValue = 0\<rparr>
     = Inl NotInitialized
   \<and> fst (removeMember 0 \<lparr>field_merkleTree = None, field_treeDepth = 20, field_zeroValue = 0\<rparr>)
     = Inl NotInitialized
   \<and> fst (addMembers [5, 6]
            \<lparr>field_merkleTree = None, field_treeDepth = 20, field_zeroValue = 0\<rparr>)
     = Inl NotInitialized
   \<and> fst (calculateOutput 13 9 4 42 2 RLN_initial) = Inl NotInitialized
   \<and> fst (genNullifier 3 42 RLN_initial) = Inl NotInitialized"
  using operations_before_setup
    [of "\<lparr>field_merkleTree = None, field_treeDepth = 20, field_zeroValue = 0\<rparr>"
      5 0 "[5, 6]" RLN_initial "[]" 3 42 13 9 4 2]
  by (simp add: RLN_initial_def)

end
